theory Spec2Isabelle
  imports Main "HOL-Library.Word"
begin

section \<open>Arrays and images\<close>

text \<open>
  The mask generator of \<^verbatim>\<open>src/mask_generator.py\<close> works on 8-bit data: a numpy array of
  dtype uint8 is a shape and its values in row-major order, a PIL image is a mode, a
  size (width, height) and one plane of bytes per band.
\<close>

type_synonym u8 = "8 word"

record 'a ndarray =
  nrows :: nat
  ncols :: nat
  cells :: "'a list"

datatype mode = Mode_L | Mode_LA | Mode_P | Mode_RGB | Mode_RGBA

text \<open>
  \<^verbatim>\<open>info['transparency']\<close>, which a PNG's tRNS chunk or a GIF sets on an image without
  an alpha band: an integer (the transparent grey level of an L image, the transparent
  palette index of a P image), a tuple (the transparent colour of an RGB image) or bytes
  (one alpha value per palette entry of a P image).
\<close>

datatype transparency = Trns_int nat | Trns_tuple nat nat nat | Trns_bytes "u8 list"

record pil_image =
  im_mode :: mode
  im_width :: nat
  im_height :: nat
  im_bands :: "u8 list list"
  im_palette :: "(u8 \<times> u8 \<times> u8) list"
  im_transparency :: "transparency option"

definition nbands :: "mode \<Rightarrow> nat" where
  "nbands m =
     (case m of Mode_L \<Rightarrow> 1 | Mode_LA \<Rightarrow> 2 | Mode_P \<Rightarrow> 1 | Mode_RGB \<Rightarrow> 3 | Mode_RGBA \<Rightarrow> 4)"

definition trns_fits :: "mode \<Rightarrow> transparency option \<Rightarrow> bool" where
  "trns_fits m t =
     (case t of
        None \<Rightarrow> True
      | Some (Trns_int k) \<Rightarrow> m = Mode_L \<or> m = Mode_P
      | Some (Trns_tuple r g b) \<Rightarrow> m = Mode_RGB
      | Some (Trns_bytes bs) \<Rightarrow> m = Mode_P)"

text \<open>
  What \<^verbatim>\<open>Image.open\<close> hands out, for the modes modelled here: PIL refuses a file whose
  size is not positive, every band covers the whole image, and the transparency entry, if
  there is one, is of the kind that goes with the mode.
\<close>

definition wf_image :: "pil_image \<Rightarrow> bool" where
  "wf_image im \<longleftrightarrow>
     0 < im_width im \<and> 0 < im_height im \<and>
     length (im_bands im) = nbands (im_mode im) \<and>
     list_all (\<lambda>b. length b = im_width im * im_height im) (im_bands im) \<and>
     trns_fits (im_mode im) (im_transparency im)"

text \<open>
  \<^verbatim>\<open>convert('RGBA')\<close>. An RGBA image is copied and an LA image keeps its alpha band. An
  RGB or L image with a transparent colour in \<^verbatim>\<open>info['transparency']\<close> gets alpha 0 on
  the pixels of that colour (compared on the low eight bits) and 255 elsewhere, and the
  entry is dropped; without the entry the alpha band is 255 everywhere. A P image is looked
  up in its palette, whose alpha comes from the transparency entry.
\<close>

definition key_alpha_grey :: "nat \<Rightarrow> u8 list \<Rightarrow> u8 list" where
  "key_alpha_grey k ls = map (\<lambda>l. if l = of_nat k then 0 else 255) ls"

definition key_alpha_rgb :: "nat \<Rightarrow> nat \<Rightarrow> nat \<Rightarrow> u8 list \<Rightarrow> u8 list \<Rightarrow> u8 list \<Rightarrow> u8 list" where
  "key_alpha_rgb r g b rs gs bs =
     map (\<lambda>(x, y, z). if x = of_nat r \<and> y = of_nat g \<and> z = of_nat b then 0 else 255)
       (zip rs (zip gs bs))"

definition palette_entry :: "(u8 \<times> u8 \<times> u8) list \<Rightarrow> u8 \<Rightarrow> u8 \<times> u8 \<times> u8" where
  "palette_entry pal i = (if unat i < length pal then pal ! unat i else (0, 0, 0))"

definition palette_alpha :: "transparency option \<Rightarrow> u8 \<Rightarrow> u8" where
  "palette_alpha t i =
     (case t of
        Some (Trns_int k) \<Rightarrow> if unat i = k then 0 else 255
      | Some (Trns_bytes alphas) \<Rightarrow> if unat i < length alphas then alphas ! unat i else 255
      | _ \<Rightarrow> 255)"

definition convert_RGBA :: "pil_image \<Rightarrow> pil_image" where
  "convert_RGBA im =
     (let bs = im_bands im;
          opaque = replicate (im_width im * im_height im) (255 :: u8)
      in case im_mode im of
           Mode_RGBA \<Rightarrow> im
         | Mode_LA \<Rightarrow>
             im\<lparr>im_mode := Mode_RGBA,
                im_bands := take 1 bs @ take 1 bs @ take 1 bs @ take 1 (drop 1 bs)\<rparr>
         | Mode_RGB \<Rightarrow>
             (case im_transparency im of
                Some (Trns_tuple r g b) \<Rightarrow>
                  im\<lparr>im_mode := Mode_RGBA,
                     im_bands := take 3 bs @ [key_alpha_rgb r g b (bs ! 0) (bs ! 1) (bs ! 2)],
                     im_transparency := None\<rparr>
              | _ \<Rightarrow> im\<lparr>im_mode := Mode_RGBA, im_bands := take 3 bs @ [opaque]\<rparr>)
         | Mode_L \<Rightarrow>
             (case im_transparency im of
                Some (Trns_int k) \<Rightarrow>
                  im\<lparr>im_mode := Mode_RGBA,
                     im_bands := take 1 bs @ take 1 bs @ take 1 bs
                       @ [key_alpha_grey k (concat (take 1 bs))],
                     im_transparency := None\<rparr>
              | _ \<Rightarrow>
                  im\<lparr>im_mode := Mode_RGBA,
                     im_bands := take 1 bs @ take 1 bs @ take 1 bs @ [opaque]\<rparr>)
         | Mode_P \<Rightarrow>
             (let index = concat (take 1 bs);
                  colours = map (palette_entry (im_palette im)) index
              in im\<lparr>im_mode := Mode_RGBA,
                    im_bands := [map fst colours, map (fst \<circ> snd) colours,
                                 map (snd \<circ> snd) colours,
                                 map (palette_alpha (im_transparency im)) index]\<rparr>))"

definition im_size :: "pil_image \<Rightarrow> nat \<times> nat" where
  "im_size im = (im_width im, im_height im)"

text \<open>\<^verbatim>\<open>split()\<close>: one single-band image per band.\<close>

definition split :: "pil_image \<Rightarrow> pil_image list" where
  "split im =
     map (\<lambda>b. \<lparr>im_mode = Mode_L, im_width = im_width im, im_height = im_height im,
               im_bands = [b],
               im_palette = [], im_transparency = None\<rparr>) (im_bands im)"

text \<open>\<^verbatim>\<open>np.array\<close> of a single-band image: shape (height, width).\<close>

definition np_array :: "pil_image \<Rightarrow> u8 ndarray" where
  "np_array im = \<lparr>nrows = im_height im, ncols = im_width im, cells = concat (im_bands im)\<rparr>"

text \<open>\<^verbatim>\<open>Image.fromarray\<close> of a two-dimensional uint8 array: a mode L image.\<close>

definition Image_fromarray :: "u8 ndarray \<Rightarrow> pil_image" where
  "Image_fromarray a =
     \<lparr>im_mode = Mode_L, im_width = ncols a, im_height = nrows a, im_bands = [cells a],
      im_palette = [], im_transparency = None\<rparr>"

text \<open>
  \<^verbatim>\<open>np.where(a > t, x, y)\<close> compares each byte, read as an unsigned number, with the
  Python integer \<open>t\<close> and yields an integer array; \<^verbatim>\<open>.astype(np.uint8)\<close> keeps the low
  eight bits of each value.
\<close>

definition np_where_gt :: "u8 ndarray \<Rightarrow> int \<Rightarrow> int \<Rightarrow> int \<Rightarrow> int ndarray" where
  "np_where_gt a t x y =
     \<lparr>nrows = nrows a, ncols = ncols a, cells = map (\<lambda>v. if uint v > t then x else y) (cells a)\<rparr>"

definition astype_uint8 :: "int ndarray \<Rightarrow> u8 ndarray" where
  "astype_uint8 a = \<lparr>nrows = nrows a, ncols = ncols a, cells = map word_of_int (cells a)\<rparr>"

definition np_ones :: "nat \<times> nat \<Rightarrow> u8 ndarray" where
  "np_ones shape = \<lparr>nrows = fst shape, ncols = snd shape, cells = replicate (fst shape * snd shape) 1\<rparr>"

definition copy :: "u8 ndarray \<Rightarrow> u8 ndarray" where
  "copy a = \<lparr>nrows = nrows a, ncols = ncols a, cells = cells a\<rparr>"

section \<open>The OpenCV operations\<close>

text \<open>
  \<^verbatim>\<open>cv2.resize\<close> (always called with \<^verbatim>\<open>interpolation=cv2.INTER_LINEAR\<close> and a size
  (width, height)), \<^verbatim>\<open>cv2.Canny\<close> and \<^verbatim>\<open>cv2.dilate\<close> are library code. The generator
  takes them as a parameter; each returns a fresh array and leaves its argument alone.
  \<^verbatim>\<open>cv2.resize\<close> rejects an empty array and an empty size; \<^verbatim>\<open>create_mask\<close> calls it on
  arrays made from a decoded image, whose width and height are positive.
\<close>

record cv2 =
  resize :: "u8 ndarray \<Rightarrow> nat \<times> nat \<Rightarrow> u8 ndarray"
  Canny :: "u8 ndarray \<Rightarrow> int \<Rightarrow> int \<Rightarrow> u8 ndarray"
  dilate :: "u8 ndarray \<Rightarrow> u8 ndarray \<Rightarrow> nat \<Rightarrow> u8 ndarray"

section \<open>MaskGenerator\<close>

definition ALPHA_THRESHOLD :: int where "ALPHA_THRESHOLD = 127"
definition EDGE_LOW :: int where "EDGE_LOW = 100"
definition EDGE_HIGH :: int where "EDGE_HIGH = 200"
definition SUPERSAMPLE_FACTOR :: nat where "SUPERSAMPLE_FACTOR = 4"

record mask_generator =
  debug :: bool

datatype error = DecodeError

text \<open>
  The world a call runs in: what each path decodes to (nothing when the file is missing
  or is no image), the clock as \<^verbatim>\<open>strftime\<close> prints it, and the paths handed to
  \<^verbatim>\<open>Image.open\<close> so far, one entry per call.
\<close>

record world =
  files :: "string \<Rightarrow> pil_image option"
  clock :: string
  opened :: "string list"

definition datetime_now :: "world \<Rightarrow> string \<times> world" where
  "datetime_now w = (clock w, w)"

definition Image_open :: "string \<Rightarrow> world \<Rightarrow> (error + pil_image) \<times> world" where
  "Image_open path w =
     ((case files w path of None \<Rightarrow> Inl DecodeError | Some im \<Rightarrow> Inr im),
      w\<lparr>opened := opened w @ [path]\<rparr>)"

text \<open>The local arrays of \<^verbatim>\<open>create_mask\<close>, steps 2 to 6.\<close>

record locals =
  initial_mask :: "u8 ndarray"
  mask_large :: "u8 ndarray"
  edges :: "u8 ndarray"
  edge_zone :: "u8 ndarray"
  final_high_res :: "u8 ndarray"
  final_mask_array :: "u8 ndarray"

definition mask_steps :: "cv2 \<Rightarrow> pil_image \<Rightarrow> locals" where
  "mask_steps cv original =
     (let (width, height) = im_size original;
          alpha = split original ! 3;
          alpha_array = np_array alpha;
          initial = astype_uint8 (np_where_gt alpha_array ALPHA_THRESHOLD 0 255);
          super_size = (width * SUPERSAMPLE_FACTOR, height * SUPERSAMPLE_FACTOR);
          large = resize cv initial super_size;
          large = astype_uint8 (np_where_gt large ALPHA_THRESHOLD 0 255);
          edge_map = Canny cv large EDGE_LOW EDGE_HIGH;
          kernel = np_ones (3, 3);
          zone = dilate cv edge_map kernel 1;
          high_res = copy large;
          final = resize cv high_res (width, height);
          final = astype_uint8 (np_where_gt final ALPHA_THRESHOLD 0 255)
      in \<lparr>initial_mask = initial, mask_large = large, edges = edge_map, edge_zone = zone,
          final_high_res = high_res, final_mask_array = final\<rparr>)"

text \<open>
  \<^verbatim>\<open>create_mask(self, image_path)\<close>: the result or the error raised, the generator
  object after the call and the world after the call.
\<close>

definition create_mask ::
    "cv2 \<Rightarrow> mask_generator \<Rightarrow> string \<Rightarrow> world \<Rightarrow> (error + pil_image) \<times> mask_generator \<times> world" where
  "create_mask cv self image_path w =
     (let (timestamp, w) = datetime_now w;
          (opened_image, w) = Image_open image_path w
      in case opened_image of
           Inl e \<Rightarrow> (Inl e, self, w)
         | Inr im \<Rightarrow>
             (let original = convert_RGBA im;
                  final_mask = Image_fromarray (final_mask_array (mask_steps cv original))
              in (Inr final_mask, self, w)))"

text \<open>
  The binarization rule \<^verbatim>\<open>np.where(a > self.ALPHA_THRESHOLD, 0, 255).astype(np.uint8)\<close>,
  which \<^verbatim>\<open>create_mask\<close> applies three times, and the alpha plane it starts from.
\<close>

definition binarize :: "u8 ndarray \<Rightarrow> u8 ndarray" where
  "binarize a = astype_uint8 (np_where_gt a ALPHA_THRESHOLD 0 255)"

definition alpha_of :: "pil_image \<Rightarrow> u8 list" where
  "alpha_of im = cells (np_array (split (convert_RGBA im) ! 3))"

definition binary :: "u8 list \<Rightarrow> bool" where
  "binary vs \<longleftrightarrow> list_all (\<lambda>v. v = 0 \<or> v = 255) vs"

definition binary_image :: "pil_image \<Rightarrow> bool" where
  "binary_image m \<longleftrightarrow> list_all binary (im_bands m)"

text \<open>The image of one grey value, as \<^verbatim>\<open>Image.fromarray\<close> builds it.\<close>

definition flat_mask :: "nat \<Rightarrow> nat \<Rightarrow> u8 \<Rightarrow> pil_image" where
  "flat_mask w h v =
     \<lparr>im_mode = Mode_L, im_width = w, im_height = h, im_bands = [replicate (w * h) v],
      im_palette = [], im_transparency = None\<rparr>"

text \<open>\<^verbatim>\<open>create_mask\<close> with step 4 (edge detection and dilation) taken out.\<close>

definition mask_steps_without_edges :: "cv2 \<Rightarrow> pil_image \<Rightarrow> u8 ndarray" where
  "mask_steps_without_edges cv original =
     (let (width, height) = im_size original;
          alpha = split original ! 3;
          alpha_array = np_array alpha;
          initial = astype_uint8 (np_where_gt alpha_array ALPHA_THRESHOLD 0 255);
          super_size = (width * SUPERSAMPLE_FACTOR, height * SUPERSAMPLE_FACTOR);
          large = resize cv initial super_size;
          large = astype_uint8 (np_where_gt large ALPHA_THRESHOLD 0 255);
          final = resize cv large (width, height);
          final = astype_uint8 (np_where_gt final ALPHA_THRESHOLD 0 255)
      in final)"

definition create_mask_without_edges ::
    "cv2 \<Rightarrow> mask_generator \<Rightarrow> string \<Rightarrow> world \<Rightarrow> (error + pil_image) \<times> mask_generator \<times> world" where
  "create_mask_without_edges cv self image_path w =
     (let (timestamp, w) = datetime_now w;
          (opened_image, w) = Image_open image_path w
      in case opened_image of
           Inl e \<Rightarrow> (Inl e, self, w)
         | Inr im \<Rightarrow>
             (let original = convert_RGBA im;
                  final_mask = Image_fromarray (mask_steps_without_edges cv original)
              in (Inr final_mask, self, w)))"

text \<open>
  Example inputs: a 2 by 2 picture with alpha, a 2 by 1 picture without, 2 by 1
  pictures of one alpha value, an RGB picture whose two pixels have the transparent colour
  of its tRNS entry, and a 2 by 2 picture whose only opaque pixel is the first.
\<close>

definition picture_rgba :: pil_image where
  "picture_rgba =
     \<lparr>im_mode = Mode_RGBA, im_width = 2, im_height = 2,
      im_bands = [[10, 20, 30, 40], [50, 60, 70, 80], [90, 100, 110, 120], [255, 0, 127, 128]],
      im_palette = [], im_transparency = None\<rparr>"

definition picture_rgb :: pil_image where
  "picture_rgb =
     \<lparr>im_mode = Mode_RGB, im_width = 2, im_height = 1,
      im_bands = [[10, 20], [30, 40], [50, 60]], im_palette = [], im_transparency = None\<rparr>"

definition picture_uniform :: "u8 \<Rightarrow> pil_image" where
  "picture_uniform a =
     \<lparr>im_mode = Mode_RGBA, im_width = 2, im_height = 1,
      im_bands = [[10, 20], [30, 40], [50, 60], [a, a]],
      im_palette = [], im_transparency = None\<rparr>"



definition disk :: world where
  "disk =
     \<lparr>files = [''shirt.png'' \<mapsto> picture_rgba, ''shirt.jpg'' \<mapsto> picture_rgb],
      clock = ''20240101_1200'', opened = []\<rparr>"

definition disk_of :: "pil_image \<Rightarrow> world" where
  "disk_of im = \<lparr>files = [''input.png'' \<mapsto> im], clock = ''20240315_0930'', opened = [''old.png'']\<rparr>"

definition generator :: mask_generator where
  "generator = \<lparr>debug = False\<rparr>"

section \<open>A reference instance of the OpenCV operations\<close>

text \<open>
  OpenCV resizes 8-bit data with \<^verbatim>\<open>INTER_LINEAR\<close> in fixed point (\<^verbatim>\<open>resize.cpp\<close>).
  Destination index \<open>d\<close> of a line of \<open>dsize\<close> samples made from \<open>ssize\<close> samples
  reads the source at \<open>f = (d + 0.5) * ssize / dsize - 0.5\<close>: at \<open>s = floor f\<close> and
  \<open>s + 1\<close>, the second with the weight \<open>f - s\<close> scaled by \<open>2 ^ 11\<close> and rounded, the
  first with the rest of \<open>2 ^ 11\<close>. The model computes \<open>f\<close> exactly; OpenCV computes it
  in single precision, which is exact for the two ratios of \<^verbatim>\<open>create_mask\<close>, 4 and 1/4,
  where the scaled weight is a whole number and the two weights add up to \<open>2 ^ 11\<close>.
  (A destination of half the source size takes another path in OpenCV and is not what
  this model describes.)
\<close>

definition INTER_RESIZE_COEF_SCALE :: int where
  "INTER_RESIZE_COEF_SCALE = 2048"

definition linear_coef :: "nat \<Rightarrow> nat \<Rightarrow> nat \<Rightarrow> int \<times> int" where
  "linear_coef ssize dsize d =
     (let num = (2 * int d + 1) * int ssize - int dsize;
          den = 2 * int dsize
      in (num div den, ((num mod den) * INTER_RESIZE_COEF_SCALE + int dsize) div den))"

text \<open>
  Columns: an index before the first sample or at the last one reads that sample alone
  (\<^verbatim>\<open>fx = 0, sx = 0\<close> and \<^verbatim>\<open>fx = 0, sx = ssize.width - 1\<close>).
\<close>

definition column_tap :: "nat \<Rightarrow> nat \<Rightarrow> nat \<Rightarrow> nat \<times> nat \<times> int" where
  "column_tap ssize dsize dx =
     (let (sx, a1) = linear_coef ssize dsize dx
      in if sx < 0 then (0, min 1 (ssize - 1), 0)
         else if sx \<ge> int ssize - 1 then (ssize - 1, ssize - 1, 0)
         else (nat sx, nat sx + 1, a1))"

text \<open>
  Rows: the weight is kept as it is and the two row indices are clipped to the array
  (\<^verbatim>\<open>clip(sy0 - ksize2 + 1 + k, 0, ssize.height)\<close> for \<open>k = 0, 1\<close>).
\<close>

definition clip :: "int \<Rightarrow> nat \<Rightarrow> nat" where
  "clip i n = (if i \<ge> 0 then (if i < int n then nat i else n - 1) else 0)"

definition row_tap :: "nat \<Rightarrow> nat \<Rightarrow> nat \<Rightarrow> nat \<times> nat \<times> int" where
  "row_tap ssize dsize dy =
     (let (sy, b1) = linear_coef ssize dsize dy
      in (clip sy ssize, clip (sy + 1) ssize, b1))"

definition at :: "u8 ndarray \<Rightarrow> nat \<Rightarrow> nat \<Rightarrow> int" where
  "at a y x = uint (cells a ! (y * ncols a + x))"

text \<open>
  One destination pixel: the horizontal pass \<^verbatim>\<open>S[sx] * a0 + S[sx + 1] * a1\<close> on each of the
  two source rows, then the vertical pass
  \<^verbatim>\<open>(((b0 * (S0 >> 4)) >> 16) + ((b1 * (S1 >> 4)) >> 16) + 2) >> 2\<close>.
\<close>

definition hresize_linear :: "int \<Rightarrow> int \<Rightarrow> int \<Rightarrow> int" where
  "hresize_linear s0 s1 a1 = s0 * (INTER_RESIZE_COEF_SCALE - a1) + s1 * a1"

definition vresize_linear :: "int \<Rightarrow> int \<Rightarrow> int \<Rightarrow> int" where
  "vresize_linear S0 S1 b1 =
     (((INTER_RESIZE_COEF_SCALE - b1) * (S0 div 16)) div 65536 + (b1 * (S1 div 16)) div 65536 + 2)
       div 4"

definition resize_linear_px :: "u8 ndarray \<Rightarrow> nat \<times> nat \<Rightarrow> nat \<Rightarrow> nat \<Rightarrow> int" where
  "resize_linear_px src dsize dy dx =
     (let (x0, x1, a1) = column_tap (ncols src) (fst dsize) dx;
          (y0, y1, b1) = row_tap (nrows src) (snd dsize) dy;
          S0 = hresize_linear (at src y0 x0) (at src y0 x1) a1;
          S1 = hresize_linear (at src y1 x0) (at src y1 x1) a1
      in vresize_linear S0 S1 b1)"

definition resize_linear :: "u8 ndarray \<Rightarrow> nat \<times> nat \<Rightarrow> u8 ndarray" where
  "resize_linear src dsize =
     \<lparr>nrows = snd dsize, ncols = fst dsize,
      cells = map (\<lambda>i. word_of_int (resize_linear_px src dsize (i div fst dsize) (i mod fst dsize)))
                [0 ..< fst dsize * snd dsize]\<rparr>"

text \<open>
  Dilation: each pixel becomes the maximum of the pixels under the non-zero entries of
  the kernel, centred on it; positions outside the array do not count.
\<close>

definition under_kernel :: "u8 ndarray \<Rightarrow> u8 ndarray \<Rightarrow> nat \<Rightarrow> nat \<Rightarrow> u8 list" where
  "under_kernel a k y x =
     concat (map (\<lambda>ky. concat (map (\<lambda>kx.
       (let yy = int y + int ky - int (nrows k div 2);
            xx = int x + int kx - int (ncols k div 2)
        in if cells k ! (ky * ncols k + kx) \<noteq> 0 \<and> 0 \<le> yy \<and> yy < int (nrows a)
              \<and> 0 \<le> xx \<and> xx < int (ncols a)
           then [cells a ! (nat yy * ncols a + nat xx)] else []))
       [0 ..< ncols k])) [0 ..< nrows k])"

definition dilate_once :: "u8 ndarray \<Rightarrow> u8 ndarray \<Rightarrow> u8 ndarray" where
  "dilate_once k a =
     \<lparr>nrows = nrows a, ncols = ncols a,
      cells = map (\<lambda>i. fold max (under_kernel a k (i div ncols a) (i mod ncols a)) 0)
                [0 ..< length (cells a)]\<rparr>"

definition dilate_iter :: "u8 ndarray \<Rightarrow> u8 ndarray \<Rightarrow> nat \<Rightarrow> u8 ndarray" where
  "dilate_iter a k iterations = (dilate_once k ^^ iterations) a"

text \<open>
  The edge operator of the reference instance keeps the first stage of Canny only: a
  pixel is an edge (255) when its Sobel gradient, with the border replicated, has an
  L1 norm above the high threshold. \<^verbatim>\<open>create_mask\<close> never reads the edge map, and every
  theorem below holds for every edge operator.
\<close>

definition at_clamped :: "u8 ndarray \<Rightarrow> int \<Rightarrow> int \<Rightarrow> int" where
  "at_clamped a y x =
     at a (nat (min (max y 0) (int (nrows a) - 1))) (nat (min (max x 0) (int (ncols a) - 1)))"

definition sobel_l1 :: "u8 ndarray \<Rightarrow> int \<Rightarrow> int \<Rightarrow> int" where
  "sobel_l1 a y x =
     (let gx = (at_clamped a (y - 1) (x + 1) + 2 * at_clamped a y (x + 1) + at_clamped a (y + 1) (x + 1))
             - (at_clamped a (y - 1) (x - 1) + 2 * at_clamped a y (x - 1) + at_clamped a (y + 1) (x - 1));
          gy = (at_clamped a (y + 1) (x - 1) + 2 * at_clamped a (y + 1) x + at_clamped a (y + 1) (x + 1))
             - (at_clamped a (y - 1) (x - 1) + 2 * at_clamped a (y - 1) x + at_clamped a (y - 1) (x + 1))
      in \<bar>gx\<bar> + \<bar>gy\<bar>)"

definition strong_edges :: "u8 ndarray \<Rightarrow> int \<Rightarrow> int \<Rightarrow> u8 ndarray" where
  "strong_edges a low high =
     \<lparr>nrows = nrows a, ncols = ncols a,
      cells = map (\<lambda>i. if sobel_l1 a (int (i div ncols a)) (int (i mod ncols a)) > high
                        then 255 else 0) [0 ..< length (cells a)]\<rparr>"

definition cv2_reference :: cv2 where
  "cv2_reference = \<lparr>resize = resize_linear, Canny = strong_edges, dilate = dilate_iter\<rparr>"

text \<open>
  What the theorems ask of \<^verbatim>\<open>cv2.resize\<close> on a non-empty array and a positive size:
  the result has the size asked for, and an array of one value stays an array of that
  value (every interpolated pixel is a weighted mean of equal samples).
\<close>

definition resize_shape :: "cv2 \<Rightarrow> bool" where
  "resize_shape cv \<longleftrightarrow>
     (\<forall>src w h. 0 < nrows src \<and> 0 < ncols src \<and> 0 < w \<and> 0 < h \<longrightarrow>
        nrows (resize cv src (w, h)) = h \<and> ncols (resize cv src (w, h)) = w
        \<and> length (cells (resize cv src (w, h))) = w * h)"

definition resize_flat :: "cv2 \<Rightarrow> bool" where
  "resize_flat cv \<longleftrightarrow>
     (\<forall>src w h v. 0 < nrows src \<and> 0 < ncols src \<and> 0 < w \<and> 0 < h
          \<and> cells src = replicate (nrows src * ncols src) v \<longrightarrow>
        cells (resize cv src (w, h)) = replicate (w * h) v)"

section \<open>Properties\<close>

lemma create_mask_decoded:
  "files w path = Some im \<Longrightarrow>
   fst (create_mask cv self path w) =
     Inr (Image_fromarray (final_mask_array (mask_steps cv (convert_RGBA im))))"
  by (simp add: create_mask_def datetime_now_def Image_open_def Let_def)

lemma copy_id: "copy a = a"
  by (simp add: copy_def)

lemma binarize_cells: "cells (binarize a) = map (\<lambda>v. if uint v > 127 then 0 else 255) (cells a)"
  by (simp add: binarize_def astype_uint8_def np_where_gt_def ALPHA_THRESHOLD_def)

lemma binarize_shape: "nrows (binarize a) = nrows a" "ncols (binarize a) = ncols a"
  by (simp_all add: binarize_def astype_uint8_def np_where_gt_def)

lemma mask_steps_binarize:
  "initial_mask (mask_steps cv original) = binarize (np_array (split original ! 3))"
  "mask_large (mask_steps cv original) =
     binarize (resize cv (initial_mask (mask_steps cv original))
       (im_width original * 4, im_height original * 4))"
  "final_high_res (mask_steps cv original) = mask_large (mask_steps cv original)"
  "final_mask_array (mask_steps cv original) =
     binarize (resize cv (final_high_res (mask_steps cv original))
       (im_width original, im_height original))"
  by (simp_all add: mask_steps_def Let_def binarize_def im_size_def copy_id SUPERSAMPLE_FACTOR_def)

lemma binary_binarize: "binary (cells (binarize a))"
  by (auto simp add: binary_def binarize_cells list_all_iff)

lemma disk_files:
  "files disk ''shirt.png'' = Some picture_rgba"
  "files disk ''shirt.jpg'' = Some picture_rgb"
  "files disk ''missing.png'' = None"
  by (simp_all add: disk_def)

subsection \<open>The reference instance meets what is asked of the resize\<close>

lemma index_in_range: "y < n \<Longrightarrow> x < m \<Longrightarrow> y * m + x < n * (m::nat)"
proof -
  assume a: "y < n" "x < m"
  then have "y * m + x < Suc y * m" by simp
  also have "\<dots> \<le> n * m" using a(1) by (intro mult_le_mono1) simp
  finally show ?thesis .
qed

lemma column_tap_range:
  assumes "0 < s" "column_tap s n d = (i0, i1, a)"
  shows "i0 < s \<and> i1 < s"
  using assms
  by (auto simp add: column_tap_def Let_def split: if_splits prod.splits)

lemma clip_range: "0 < n \<Longrightarrow> clip i n < n"
  by (auto simp add: clip_def)

lemma row_tap_range:
  assumes "0 < s" "row_tap s n d = (i0, i1, b)"
  shows "i0 < s \<and> i1 < s"
  using assms
  by (auto simp add: row_tap_def clip_range split: prod.splits)

lemma blend_sum:
  "((2048 * v - p) div 512 + p div 512 + 2) div 4 = (v::int)"
proof -
  define q1 r1 q2 r2 where "q1 = (2048 * v - p) div 512" and "r1 = (2048 * v - p) mod 512"
    and "q2 = p div 512" and "r2 = p mod 512"
  have e1: "2048 * v - p = 512 * q1 + r1" and e2: "p = 512 * q2 + r2"
    by (simp_all add: q1_def r1_def q2_def r2_def)
  have b: "0 \<le> r1" "r1 < 512" "0 \<le> r2" "r2 < 512"
    by (simp_all add: r1_def r2_def)
  have "q1 + q2 = 4 * v - 1 \<or> q1 + q2 = 4 * v"
    using e1 e2 b by linarith
  then have "(q1 + q2 + 2) div 4 = v"
    by auto
  then show ?thesis by (simp add: q1_def q2_def)
qed

lemma flat_blend:
  "(((2048 - b) * ((v * (2048 - a) + v * a) div 16)) div 65536
     + (b * ((v * (2048 - a) + v * a) div 16)) div 65536 + 2) div 4 = (v::int)"
proof -
  have s: "v * (2048 - a) + v * a = v * 2048" by (simp add: algebra_simps)
  define p where "p = b * v"
  have e0: "(2048 - b) * (v * 128) = (2048 * v - p) * 128" by (simp add: p_def algebra_simps)
  have e1: "b * (v * 128) = p * 128" by (simp add: p_def)
  have d: "(v * 2048) div 16 = v * 128" by simp
  have d0: "((2048 * v - p) * 128) div 65536 = (2048 * v - p) div 512" by simp
  have d1: "(p * 128) div 65536 = p div 512" by simp
  show ?thesis by (simp only: s d e0 e1 d0 d1 blend_sum)
qed

lemma at_flat:
  assumes "cells src = replicate (nrows src * ncols src) v" "y < nrows src" "x < ncols src"
  shows "at src y x = uint v"
  using assms index_in_range [of y "nrows src" x "ncols src"] by (simp add: at_def)

lemma resize_linear_px_flat:
  assumes "0 < nrows src" "0 < ncols src"
    and "cells src = replicate (nrows src * ncols src) v"
  shows "resize_linear_px src dsize dy dx = uint v"
proof -
  obtain x0 x1 a1 where tx: "column_tap (ncols src) (fst dsize) dx = (x0, x1, a1)"
    by (cases "column_tap (ncols src) (fst dsize) dx") auto
  obtain y0 y1 b1 where ty: "row_tap (nrows src) (snd dsize) dy = (y0, y1, b1)"
    by (cases "row_tap (nrows src) (snd dsize) dy") auto
  from column_tap_range [OF assms(2) tx] have x: "x0 < ncols src" "x1 < ncols src" by simp_all
  from row_tap_range [OF assms(1) ty] have y: "y0 < nrows src" "y1 < nrows src" by simp_all
  have "at src y0 x0 = uint v" "at src y0 x1 = uint v" "at src y1 x0 = uint v" "at src y1 x1 = uint v"
    using x y assms(3) by (simp_all add: at_flat)
  then show ?thesis
    by (simp add: resize_linear_px_def tx ty Let_def hresize_linear_def vresize_linear_def
        INTER_RESIZE_COEF_SCALE_def flat_blend)
qed

lemma resize_linear_flat:
  assumes "0 < nrows src" "0 < ncols src"
    and "cells src = replicate (nrows src * ncols src) v"
  shows "cells (resize_linear src (w, h)) = replicate (w * h) v"
  by (simp add: resize_linear_def resize_linear_px_flat [OF assms] map_replicate_const)

lemma cv2_reference_shape: "resize_shape cv2_reference"
  by (simp add: resize_shape_def cv2_reference_def resize_linear_def)

lemma cv2_reference_flat: "resize_flat cv2_reference"
  by (simp add: resize_flat_def cv2_reference_def resize_linear_flat)

subsection \<open>Decoded images and the steps of \<^verbatim>\<open>create_mask\<close>\<close>

lemma convert_size:
  "im_width (convert_RGBA im) = im_width im" "im_height (convert_RGBA im) = im_height im"
  by (simp_all add: convert_RGBA_def Let_def
        split: mode.splits option.splits transparency.splits)

lemma wf_bands_L:
  assumes "wf_image im" "im_mode im = Mode_L \<or> im_mode im = Mode_P"
  obtains l where "im_bands im = [l]" "length l = im_width im * im_height im"
proof -
  from assms have "length (im_bands im) = 1"
    by (auto simp add: wf_image_def nbands_def)
  then obtain l where l: "im_bands im = [l]"
    by (cases "im_bands im") auto
  with assms(1) have "length l = im_width im * im_height im"
    by (simp add: wf_image_def)
  with l show ?thesis by (rule that)
qed

lemma wf_bands_LA:
  assumes "wf_image im" "im_mode im = Mode_LA"
  obtains l a where "im_bands im = [l, a]" "length a = im_width im * im_height im"
proof -
  from assms have "length (im_bands im) = 2"
    by (simp add: wf_image_def nbands_def)
  then obtain l a where l: "im_bands im = [l, a]"
    by (auto simp add: numeral_2_eq_2 length_Suc_conv)
  with assms(1) have "length a = im_width im * im_height im"
    by (simp add: wf_image_def)
  with l show ?thesis by (rule that)
qed

lemma wf_bands_RGB:
  assumes "wf_image im" "im_mode im = Mode_RGB"
  obtains r g b where "im_bands im = [r, g, b]" "length r = im_width im * im_height im"
    "length g = im_width im * im_height im" "length b = im_width im * im_height im"
proof -
  from assms have "length (im_bands im) = 3"
    by (simp add: wf_image_def nbands_def)
  then obtain r g b where l: "im_bands im = [r, g, b]"
    by (auto simp add: numeral_3_eq_3 length_Suc_conv)
  with assms(1) have "length r = im_width im * im_height im"
    "length g = im_width im * im_height im" "length b = im_width im * im_height im"
    by (simp_all add: wf_image_def)
  with l show ?thesis by (rule that)
qed

lemma wf_bands_RGBA:
  assumes "wf_image im" "im_mode im = Mode_RGBA"
  obtains r g b a where "im_bands im = [r, g, b, a]" "length a = im_width im * im_height im"
proof -
  from assms have "length (im_bands im) = 4"
    by (simp add: wf_image_def nbands_def)
  then obtain r g b a where l: "im_bands im = [r, g, b, a]"
    by (auto simp add: numeral_Bit0 length_Suc_conv)
  with assms(1) have "length a = im_width im * im_height im"
    by (simp add: wf_image_def)
  with l show ?thesis by (rule that)
qed

lemma convert_alpha_band:
  assumes "wf_image im"
  shows "length (im_bands (convert_RGBA im)) = 4
       \<and> length (im_bands (convert_RGBA im) ! 3) = im_width im * im_height im"
proof (cases "im_mode im")
  case Mode_L
  with assms obtain l where "im_bands im = [l]" "length l = im_width im * im_height im"
    by (auto elim: wf_bands_L)
  with Mode_L show ?thesis
    by (simp add: convert_RGBA_def Let_def key_alpha_grey_def
          split: option.splits transparency.splits)
next
  case Mode_LA
  with assms obtain l a where "im_bands im = [l, a]" "length a = im_width im * im_height im"
    by (auto elim: wf_bands_LA)
  with Mode_LA show ?thesis
    by (simp add: convert_RGBA_def Let_def)
next
  case Mode_P
  with assms obtain l where "im_bands im = [l]" "length l = im_width im * im_height im"
    by (auto elim: wf_bands_L)
  with Mode_P show ?thesis
    by (simp add: convert_RGBA_def Let_def)
next
  case Mode_RGB
  with assms obtain r g b where "im_bands im = [r, g, b]"
    "length r = im_width im * im_height im" "length g = im_width im * im_height im"
    "length b = im_width im * im_height im"
    by (auto elim: wf_bands_RGB)
  with Mode_RGB show ?thesis
    by (simp add: convert_RGBA_def Let_def key_alpha_rgb_def
          split: option.splits transparency.splits)
next
  case Mode_RGBA
  with assms obtain r g b a where "im_bands im = [r, g, b, a]"
    "length a = im_width im * im_height im"
    by (auto elim: wf_bands_RGBA)
  with Mode_RGBA show ?thesis
    by (simp add: convert_RGBA_def Let_def)
qed

lemma convert_bands_length:
  assumes "wf_image im"
  shows "length (im_bands (convert_RGBA im)) = 4"
  using convert_alpha_band [OF assms] by simp

lemma alpha_array_wf:
  assumes "wf_image im"
  shows "np_array (split (convert_RGBA im) ! 3) =
           \<lparr>nrows = im_height im, ncols = im_width im, cells = alpha_of im\<rparr>"
  using convert_bands_length [OF assms]
  by (simp add: alpha_of_def np_array_def split_def convert_size)

lemma alpha_of_band:
  assumes "wf_image im"
  shows "alpha_of im = im_bands (convert_RGBA im) ! 3"
  using convert_bands_length [OF assms]
  by (simp add: alpha_of_def np_array_def split_def)

lemma alpha_of_opaque:
  assumes "wf_image im" "im_mode im = Mode_RGB" "im_transparency im = None"
  shows "alpha_of im = replicate (im_width im * im_height im) 255"
proof -
  from assms(1,2) obtain r g b where "im_bands im = [r, g, b]"
    by (auto elim: wf_bands_RGB)
  with assms(2,3) show ?thesis
    by (simp add: alpha_of_band [OF assms(1)] convert_RGBA_def Let_def)
qed

lemma alpha_of_length:
  assumes "wf_image im"
  shows "length (alpha_of im) = im_width im * im_height im"
  using convert_alpha_band [OF assms] by (simp add: alpha_of_band [OF assms])

lemma initial_mask_wf:
  assumes "wf_image im"
  shows "initial_mask (mask_steps cv (convert_RGBA im)) =
           binarize \<lparr>nrows = im_height im, ncols = im_width im, cells = alpha_of im\<rparr>"
  by (simp add: mask_steps_binarize alpha_array_wf [OF assms])

lemma mask_large_shape:
  assumes "resize_shape cv" "wf_image im"
  shows "nrows (mask_large (mask_steps cv (convert_RGBA im))) = im_height im * 4"
    and "ncols (mask_large (mask_steps cv (convert_RGBA im))) = im_width im * 4"
proof -
  let ?i = "initial_mask (mask_steps cv (convert_RGBA im))"
  have "0 < nrows ?i \<and> 0 < ncols ?i \<and> 0 < im_width im * 4 \<and> 0 < im_height im * 4"
    using assms(2) by (simp add: initial_mask_wf binarize_shape wf_image_def)
  with assms(1) have "nrows (resize cv ?i (im_width im * 4, im_height im * 4)) = im_height im * 4
      \<and> ncols (resize cv ?i (im_width im * 4, im_height im * 4)) = im_width im * 4"
    unfolding resize_shape_def by blast
  then show "nrows (mask_large (mask_steps cv (convert_RGBA im))) = im_height im * 4"
    and "ncols (mask_large (mask_steps cv (convert_RGBA im))) = im_width im * 4"
    by (simp_all add: mask_steps_binarize(2) binarize_shape convert_size)
qed

lemma final_mask_shape:
  assumes "resize_shape cv" "wf_image im"
  shows "nrows (final_mask_array (mask_steps cv (convert_RGBA im))) = im_height im
       \<and> ncols (final_mask_array (mask_steps cv (convert_RGBA im))) = im_width im
       \<and> length (cells (final_mask_array (mask_steps cv (convert_RGBA im))))
           = im_width im * im_height im"
proof -
  let ?l = "final_high_res (mask_steps cv (convert_RGBA im))"
  have "0 < nrows ?l \<and> 0 < ncols ?l \<and> 0 < im_width im \<and> 0 < im_height im"
    using assms(2) by (simp add: mask_steps_binarize(3) mask_large_shape [OF assms] wf_image_def)
  with assms(1) have "nrows (resize cv ?l (im_width im, im_height im)) = im_height im
      \<and> ncols (resize cv ?l (im_width im, im_height im)) = im_width im
      \<and> length (cells (resize cv ?l (im_width im, im_height im))) = im_width im * im_height im"
    unfolding resize_shape_def by blast
  then show ?thesis
    by (simp add: mask_steps_binarize(4) binarize_shape binarize_cells convert_size)
qed

lemma wf_pictures: "wf_image picture_rgba" "wf_image picture_rgb"
  by (simp_all add: wf_image_def picture_rgba_def picture_rgb_def nbands_def trns_fits_def)

lemma steps_without_edges:
  "final_mask_array (mask_steps cv original) = mask_steps_without_edges cv original"
  by (simp add: mask_steps_def mask_steps_without_edges_def Let_def copy_id split: prod.splits)

lemma steps_any_edges:
  "mask_steps_without_edges (cv\<lparr>Canny := any_edges, dilate := any_dilation\<rparr>) original
     = mask_steps_without_edges cv original"
  by (simp add: mask_steps_without_edges_def Let_def split: prod.splits)

subsection \<open>Inputs of one alpha value\<close>

lemma resize_of_flat:
  assumes "resize_shape cv" "resize_flat cv" "0 < n" "0 < m" "0 < w" "0 < h"
  shows "resize cv \<lparr>nrows = n, ncols = m, cells = replicate (n * m) v\<rparr> (w, h)
           = \<lparr>nrows = h, ncols = w, cells = replicate (w * h) v\<rparr>"
proof -
  let ?src = "\<lparr>nrows = n, ncols = m, cells = replicate (n * m) v\<rparr>"
  have pre: "0 < nrows ?src \<and> 0 < ncols ?src \<and> 0 < w \<and> 0 < h" using assms by simp
  have "nrows (resize cv ?src (w, h)) = h \<and> ncols (resize cv ?src (w, h)) = w"
    using assms(1) pre unfolding resize_shape_def by blast
  moreover have "cells (resize cv ?src (w, h)) = replicate (w * h) v"
    using assms(2) pre unfolding resize_flat_def by simp
  ultimately show ?thesis by (intro ndarray.equality) simp_all
qed

lemma binarize_flat:
  "binarize \<lparr>nrows = n, ncols = m, cells = replicate k v\<rparr>
     = \<lparr>nrows = n, ncols = m, cells = replicate k (if uint v > 127 then 0 else 255)\<rparr>"
  by (intro ndarray.equality) (simp_all add: binarize_shape binarize_cells)

lemma uniform_alpha:
  assumes "resize_shape cv" "resize_flat cv" "wf_image im" "files w path = Some im"
    and "alpha_of im = replicate (im_width im * im_height im) a"
  shows "fst (create_mask cv self path w) =
           Inr (flat_mask (im_width im) (im_height im) (if uint a > 127 then 0 else 255))"
proof -
  let ?W = "im_width im" and ?H = "im_height im"
  have pos: "0 < ?W" "0 < ?H" using assms(3) by (simp_all add: wf_image_def)
  have c: "?W * ?H = ?H * ?W" by simp
  define b :: u8 where "b = (if uint a > 127 then 0 else 255)"
  define b' :: u8 where "b' = (if uint b > 127 then 0 else 255)"
  have bb: "(if uint b' > 127 then 0 else 255) = b" by (simp add: b'_def b_def)
  let ?st = "mask_steps cv (convert_RGBA im)"
  have i: "initial_mask ?st = \<lparr>nrows = ?H, ncols = ?W, cells = replicate (?H * ?W) b\<rparr>"
    by (simp add: initial_mask_wf [OF assms(3)] assms(5) binarize_flat b_def c)
  have r1: "resize cv \<lparr>nrows = ?H, ncols = ?W, cells = replicate (?H * ?W) b\<rparr> (?W * 4, ?H * 4)
      = \<lparr>nrows = ?H * 4, ncols = ?W * 4, cells = replicate (?W * 4 * (?H * 4)) b\<rparr>"
    using pos by (intro resize_of_flat [OF assms(1,2)]) simp_all
  have l: "mask_large ?st = \<lparr>nrows = ?H * 4, ncols = ?W * 4, cells = replicate (?W * 4 * (?H * 4)) b'\<rparr>"
    by (simp only: mask_steps_binarize(2) i convert_size r1 binarize_flat b'_def)
  have c2: "?W * 4 * (?H * 4) = ?H * 4 * (?W * 4)" by simp
  have r2: "resize cv \<lparr>nrows = ?H * 4, ncols = ?W * 4, cells = replicate (?H * 4 * (?W * 4)) b'\<rparr> (?W, ?H)
      = \<lparr>nrows = ?H, ncols = ?W, cells = replicate (?W * ?H) b'\<rparr>"
    using pos by (intro resize_of_flat [OF assms(1,2)]) simp_all
  have f: "final_mask_array ?st = \<lparr>nrows = ?H, ncols = ?W, cells = replicate (?W * ?H) b\<rparr>"
    by (simp only: mask_steps_binarize(4) mask_steps_binarize(3) l convert_size c2 r2 binarize_flat bb)
  show ?thesis
    by (simp add: create_mask_decoded [OF assms(4)] f Image_fromarray_def flat_mask_def b_def)
qed

lemma all_equal_replicate:
  "list_all (\<lambda>a. a = v) xs \<Longrightarrow> xs = replicate (length xs) v"
  by (induction xs) simp_all

lemma disk_of_files: "files (disk_of im) ''input.png'' = Some im"
  by (simp add: disk_of_def)

lemma wf_picture_uniform: "wf_image (picture_uniform a)"
  by (simp add: wf_image_def picture_uniform_def nbands_def trns_fits_def)

lemma alpha_picture_uniform: "alpha_of (picture_uniform a) = [a, a]"
  by (simp add: alpha_of_band [OF wf_picture_uniform])
     (simp add: picture_uniform_def convert_RGBA_def)

lemma alpha_picture_rgba: "alpha_of picture_rgba = [255, 0, 127, 128]"
  by (simp add: alpha_of_band [OF wf_pictures(1)])
     (simp add: picture_rgba_def convert_RGBA_def)

subsection \<open>The world after a call\<close>

lemma create_mask_after:
  "snd (create_mask cv self path w) = (self, w\<lparr>opened := opened w @ [path]\<rparr>)"
  by (cases "files w path") (simp_all add: create_mask_def datetime_now_def Image_open_def)

lemma alpha_picture_rgb: "alpha_of picture_rgb = [255, 255]"
  using alpha_of_opaque [OF wf_pictures(2)] by (simp add: picture_rgb_def numeral_2_eq_2)

lemma mask_steps_depends:
  assumes "im_size o1 = im_size o2" "np_array (split o1 ! 3) = np_array (split o2 ! 3)"
  shows "mask_steps cv o1 = mask_steps cv o2"
  using assms by (simp add: mask_steps_def)

subsection \<open>Supersampling and back with the reference resize\<close>






















section \<open>The claims\<close>

text \<open>
  C1. For every decodable input image, every pixel of the mask that \<^verbatim>\<open>create_mask\<close>
  returns is 0 or 255 and nothing in between, whatever the OpenCV operations compute:
  the last step of the pipeline is the binarization rule.
\<close>

theorem create_mask_binary:
  assumes "files w path = Some im"
  shows "\<exists>m. fst (create_mask cv self path w) = Inr m \<and> binary_image m"
  using assms
  by (simp add: create_mask_decoded mask_steps_binarize binary_image_def Image_fromarray_def
      binary_binarize)

theorem create_mask_binary_witness:
  "\<exists>m. fst (create_mask cv2_reference generator ''shirt.png'' disk) = Inr m \<and> binary_image m"
  using create_mask_binary [of disk "''shirt.png''" picture_rgba cv2_reference generator]
  by (simp add: disk_files)

text \<open>
  C2. For every decodable input image, the mask that \<^verbatim>\<open>create_mask\<close> returns has the
  width and the height of the decoded image, although the pipeline works at four times
  that size in between: the second resize asks for the original size.
\<close>

theorem create_mask_same_size:
  assumes "resize_shape cv" "wf_image im" "files w path = Some im"
  shows "\<exists>m. fst (create_mask cv self path w) = Inr m
           \<and> im_width m = im_width im \<and> im_height m = im_height im
           \<and> list_all (\<lambda>b. length b = im_width im * im_height im) (im_bands m)"
  using final_mask_shape [OF assms(1,2)] assms(3)
  by (simp add: create_mask_decoded Image_fromarray_def)

theorem create_mask_same_size_witness:
  "\<exists>m. fst (create_mask cv2_reference generator ''shirt.png'' disk) = Inr m
      \<and> im_width m = 2 \<and> im_height m = 2
      \<and> list_all (\<lambda>b. length b = 4) (im_bands m)"
  using create_mask_same_size [OF cv2_reference_shape wf_pictures(1) disk_files(1), of generator]
  by (simp add: picture_rgba_def)

text \<open>
  C3. The edge detection and the dilation have no effect on the returned mask: the final
  high-resolution mask is the supersampled binary mask unchanged, the pipeline without
  these two steps returns the same result on every input, and so does the pipeline with
  any other edge detector and dilation in their place.
\<close>

theorem edges_unused:
  "final_high_res (mask_steps cv original) = mask_large (mask_steps cv original)
   \<and> final_mask_array (mask_steps cv original) = mask_steps_without_edges cv original
   \<and> create_mask cv self path w = create_mask_without_edges cv self path w
   \<and> create_mask (cv\<lparr>Canny := any_edges, dilate := any_dilation\<rparr>) self path w
       = create_mask cv self path w"
  by (cases "files w path")
     (simp_all add: create_mask_def create_mask_without_edges_def datetime_now_def Image_open_def
        steps_without_edges steps_any_edges mask_steps_binarize(3))




text \<open>
  C5. An input whose alpha is 0 at every pixel gives a mask that is 255 everywhere.
\<close>

theorem all_transparent_mask:
  assumes "resize_shape cv" "resize_flat cv" "wf_image im" "files w path = Some im"
    and "list_all (\<lambda>a. a = 0) (alpha_of im)"
  shows "fst (create_mask cv self path w) = Inr (flat_mask (im_width im) (im_height im) 255)"
proof -
  have "alpha_of im = replicate (im_width im * im_height im) 0"
    using all_equal_replicate [OF assms(5)] by (simp add: alpha_of_length [OF assms(3)])
  from uniform_alpha [OF assms(1-4) this] show ?thesis by simp
qed

theorem all_transparent_mask_witness:
  "fst (create_mask cv2_reference generator ''input.png'' (disk_of (picture_uniform 0)))
     = Inr (flat_mask 2 1 255)"
  using
    all_transparent_mask [OF cv2_reference_shape cv2_reference_flat wf_picture_uniform
      disk_of_files, of 0 generator]
  by (simp add: alpha_picture_uniform) (simp add: picture_uniform_def)

text \<open>
  C6. The binarization rule compares strictly with 127: a pixel of alpha 127 becomes 255
  and a pixel of alpha 128 becomes 0 in the initial mask; an input of alpha 127
  everywhere gives a mask that is 255 everywhere, an input of alpha 128 everywhere a mask
  that is 0 everywhere.
\<close>

theorem threshold_boundary:
  assumes "resize_shape cv" "resize_flat cv" "wf_image im" "files w path = Some im"
  shows "(\<forall>i < length (alpha_of im).
            (alpha_of im ! i = 127 \<longrightarrow>
               cells (initial_mask (mask_steps cv (convert_RGBA im))) ! i = 255)
          \<and> (alpha_of im ! i = 128 \<longrightarrow>
               cells (initial_mask (mask_steps cv (convert_RGBA im))) ! i = 0))
       \<and> (list_all (\<lambda>a. a = 127) (alpha_of im) \<longrightarrow>
            fst (create_mask cv self path w) = Inr (flat_mask (im_width im) (im_height im) 255))
       \<and> (list_all (\<lambda>a. a = 128) (alpha_of im) \<longrightarrow>
            fst (create_mask cv self path w) = Inr (flat_mask (im_width im) (im_height im) 0))"
proof (intro conjI allI impI)
  fix i assume "i < length (alpha_of im)" "alpha_of im ! i = 127"
  then show "cells (initial_mask (mask_steps cv (convert_RGBA im))) ! i = 255"
    by (simp add: initial_mask_wf [OF assms(3)] binarize_cells)
next
  fix i assume "i < length (alpha_of im)" "alpha_of im ! i = 128"
  then show "cells (initial_mask (mask_steps cv (convert_RGBA im))) ! i = 0"
    by (simp add: initial_mask_wf [OF assms(3)] binarize_cells)
next
  assume "list_all (\<lambda>a. a = 127) (alpha_of im)"
  from all_equal_replicate [OF this]
  have "alpha_of im = replicate (im_width im * im_height im) 127"
    by (simp add: alpha_of_length [OF assms(3)])
  from uniform_alpha [OF assms(1-4) this]
  show "fst (create_mask cv self path w) = Inr (flat_mask (im_width im) (im_height im) 255)"
    by simp
next
  assume "list_all (\<lambda>a. a = 128) (alpha_of im)"
  from all_equal_replicate [OF this]
  have "alpha_of im = replicate (im_width im * im_height im) 128"
    by (simp add: alpha_of_length [OF assms(3)])
  from uniform_alpha [OF assms(1-4) this]
  show "fst (create_mask cv self path w) = Inr (flat_mask (im_width im) (im_height im) 0)"
    by simp
qed

theorem threshold_boundary_witness:
  "cells (initial_mask (mask_steps cv2_reference (convert_RGBA picture_rgba))) ! 2 = 255
   \<and> cells (initial_mask (mask_steps cv2_reference (convert_RGBA picture_rgba))) ! 3 = 0
   \<and> fst (create_mask cv2_reference generator ''input.png'' (disk_of (picture_uniform 127)))
       = Inr (flat_mask 2 1 255)
   \<and> fst (create_mask cv2_reference generator ''input.png'' (disk_of (picture_uniform 128)))
       = Inr (flat_mask 2 1 0)"
proof -
  note t = threshold_boundary [OF cv2_reference_shape cv2_reference_flat]
  have a: "cells (initial_mask (mask_steps cv2_reference (convert_RGBA picture_rgba))) ! 2 = 255"
    using t [OF wf_pictures(1) disk_files(1), of generator, THEN conjunct1, rule_format, of 2]
    by (simp add: alpha_picture_rgba)
  have b: "cells (initial_mask (mask_steps cv2_reference (convert_RGBA picture_rgba))) ! 3 = 0"
    using t [OF wf_pictures(1) disk_files(1), of generator, THEN conjunct1, rule_format, of 3]
    by (simp add: alpha_picture_rgba)
  have c: "fst (create_mask cv2_reference generator ''input.png'' (disk_of (picture_uniform 127)))
       = Inr (flat_mask 2 1 255)"
    using t [OF wf_picture_uniform disk_of_files, of 127 generator]
    by (simp add: alpha_picture_uniform) (simp add: picture_uniform_def)
  have d: "fst (create_mask cv2_reference generator ''input.png'' (disk_of (picture_uniform 128)))
       = Inr (flat_mask 2 1 0)"
    using t [OF wf_picture_uniform disk_of_files, of 128 generator]
    by (simp add: alpha_picture_uniform) (simp add: picture_uniform_def)
  from a b c d show ?thesis by simp
qed

text \<open>
  C7. On an array whose values are all 0 or 255, applying the binarization rule twice
  gives the array back.
\<close>

theorem binarize_twice:
  assumes "binary (cells g)"
  shows "binarize (binarize g) = g"
proof -
  have "map ((\<lambda>v::u8. if uint v > 127 then 0 else 255) \<circ> (\<lambda>v. if uint v > 127 then 0 else 255)) (cells g)
          = map (\<lambda>v. v) (cells g)"
    using assms by (intro map_cong) (auto simp add: binary_def list_all_iff)
  then have "cells (binarize (binarize g)) = cells g"
    by (simp add: binarize_cells)
  then show ?thesis
    by (intro ndarray.equality) (simp_all add: binarize_shape)
qed

theorem binarize_twice_witness:
  "binarize (binarize \<lparr>nrows = 2, ncols = 2, cells = [0, 255, 255, 0]\<rparr>)
     = \<lparr>nrows = 2, ncols = 2, cells = [0, 255, 255, 0]\<rparr>"
  using binarize_twice [of "\<lparr>nrows = 2, ncols = 2, cells = [0, 255, 255, 0]\<rparr>"]
  by (simp add: binary_def)




text \<open>
  C9. When the source image cannot be decoded, the call fails with the decode error:
  \<^verbatim>\<open>Image.open\<close> has been tried once, no mask is returned, and the generator, the files
  and the clock are as before. When the image can be decoded the call returns a mask.
\<close>

theorem decode_failure:
  "(files w path = None \<longrightarrow>
      create_mask cv self path w = (Inl DecodeError, self, w\<lparr>opened := opened w @ [path]\<rparr>))
   \<and> (files w path = Some im \<longrightarrow>
      (\<exists>m. create_mask cv self path w = (Inr m, self, w\<lparr>opened := opened w @ [path]\<rparr>)))"
  by (simp add: create_mask_def datetime_now_def Image_open_def)

theorem decode_failure_witness:
  "create_mask cv2_reference generator ''missing.png'' disk
     = (Inl DecodeError, generator,
        \<lparr>files = files disk, clock = clock disk, opened = [''missing.png'']\<rparr>)
   \<and> (\<exists>m. create_mask cv2_reference generator ''shirt.png'' disk
     = (Inr m, generator, \<lparr>files = files disk, clock = clock disk, opened = [''shirt.png'']\<rparr>))"
  using decode_failure [of disk "''missing.png''" cv2_reference generator]
    decode_failure [of disk "''shirt.png''" cv2_reference generator picture_rgba]
  by (simp add: disk_files) (simp add: disk_def)

text \<open>
  C10. The mask depends on the width, the height and the alpha plane of the decoded image
  only: two calls on images that agree on these return the same mask, whatever the
  colours, the path, the generator object, the clock and the calls made before.
\<close>

theorem mask_depends_on_alpha_only:
  assumes "wf_image im1" "wf_image im2"
    and "files w1 path1 = Some im1" "files w2 path2 = Some im2"
    and "im_width im1 = im_width im2" "im_height im1 = im_height im2"
    and "alpha_of im1 = alpha_of im2"
  shows "fst (create_mask cv self1 path1 w1) = fst (create_mask cv self2 path2 w2)
       \<and> fst (create_mask cv self2 path1 (snd (snd (create_mask cv self0 path0 w1))))
           = fst (create_mask cv self1 path1 w1)"
proof -
  have "mask_steps cv (convert_RGBA im1) = mask_steps cv (convert_RGBA im2)"
    using assms(5-7)
    by (intro mask_steps_depends)
       (simp_all add: im_size_def convert_size alpha_array_wf [OF assms(1)]
          alpha_array_wf [OF assms(2)])
  moreover have "files (snd (snd (create_mask cv self0 path0 w1))) path1 = Some im1"
    using assms(3) by (simp add: create_mask_after)
  ultimately show ?thesis
    by (simp add: create_mask_decoded assms(3,4))
qed

theorem mask_depends_on_alpha_only_witness:
  "fst (create_mask cv2_reference generator ''shirt.jpg'' disk)
     = fst (create_mask cv2_reference \<lparr>debug = True\<rparr> ''input.png'' (disk_of (picture_uniform 255)))
   \<and> fst (create_mask cv2_reference \<lparr>debug = True\<rparr> ''shirt.jpg''
            (snd (snd (create_mask cv2_reference generator ''shirt.png'' disk))))
       = fst (create_mask cv2_reference generator ''shirt.jpg'' disk)"
proof -
  have w: "im_width picture_rgb = im_width (picture_uniform 255)"
    and h: "im_height picture_rgb = im_height (picture_uniform 255)"
    by (simp_all add: picture_uniform_def picture_rgb_def)
  have a: "alpha_of picture_rgb = alpha_of (picture_uniform 255)"
    by (simp add: alpha_picture_uniform alpha_picture_rgb)
  show ?thesis
    by (rule mask_depends_on_alpha_only
          [OF wf_pictures(2) wf_picture_uniform disk_files(2) disk_of_files w h a])
qed

end
